theory Spec2Isabelle
  imports Complex_Main
begin

section \<open>Conventions of the embedding\<close>

text \<open>
  The notebook \<^verbatim>\<open>time_series_analysis_1/ts_2_analysis.ipynb\<close> computes with JAX and NumPy
  floating-point arrays. The embedding reads every float as a real number and every
  one-dimensional array as a list, so the theorems below are statements of exact arithmetic;
  rounding, overflow to \<^verbatim>\<open>inf\<close> and \<^verbatim>\<open>NaN\<close> are outside it. A two-dimensional array is
  the list of its rows (an array without rows is \<open>[]\<close>, whatever its column count).

  The notebook divides by the width of the radial basis and by the downsampling factor. In
  floating point a zero divisor gives \<^verbatim>\<open>inf\<close> or \<^verbatim>\<open>NaN\<close> without raising; in HOL the
  quotient is \<open>0\<close>. The two agree wherever the divisor is not zero, and the theorems that
  read such a quotient assume so. In the notebook's own runs the case does not arise: the
  width is drawn from an exponential prior, and \<^verbatim>\<open>prepare_model_arguments\<close> raises on a
  factor of zero before the model is called.

  A Python exception is a value of type \<open>error\<close>; a function that can raise returns
  \<open>error + 'a\<close> with \<open>Inl\<close> for the exception.

  The model is a probabilistic program. Each \<^verbatim>\<open>numpyro.sample\<close> site is read from a record
  of draws, so that the model becomes a function of the inputs and of the values the sampler
  proposes. A site of shape \<open>(m,)\<close> takes the first \<open>m\<close> values of its stream.
\<close>

datatype error = ZeroDivisionError | ValueError | ShapeError | IndexError

type_synonym vector = "real list"
type_synonym matrix = "real list list"

record draws =
  log_sigma :: real
  log_state_mean :: real
  log_state_delta :: "nat \<Rightarrow> real"
  wday_coefficients :: "nat \<Rightarrow> real"
  yday_rbf_width :: real
  yday_coefficients :: "nat \<Rightarrow> real"
  log_elasticity :: real

text \<open>The dictionary returned by \<^verbatim>\<open>prepare_model_arguments\<close>, one field per key.\<close>

record model_arguments =
  sales :: "int list"
  log_price_centered :: vector
  wday :: "int list"
  yday_fraction :: vector
  downsampling_factor :: int
  contrasts_sdif_t :: matrix
  contrasts_wday :: matrix
  contrasts_yday :: matrix

section \<open>Array operations of the libraries\<close>

text \<open>
  \<^verbatim>\<open>jnp.dot(M, v)\<close> for a matrix and a vector: every row is multiplied into \<open>v\<close>; a row
  whose length differs from that of \<open>v\<close> is a shape error.
\<close>

definition dot :: "matrix \<Rightarrow> vector \<Rightarrow> error + vector" where
  "dot M v =
     (if list_all (\<lambda>row. length row = length v) M
      then Inr (map (\<lambda>row. sum_list (map2 (*) row v)) M)
      else Inl ShapeError)"

text \<open>
  Elementwise \<^verbatim>\<open>a + b\<close> of two vectors with NumPy broadcasting: equal lengths add
  pointwise, a vector of length one is added to every entry of the other, anything else is
  a shape error.
\<close>

definition vadd :: "vector \<Rightarrow> vector \<Rightarrow> error + vector" where
  "vadd a b =
     (if length a = length b then Inr (map2 (+) a b)
      else if length a = 1 then Inr (map (\<lambda>y. hd a + y) b)
      else if length b = 1 then Inr (map (\<lambda>x. x + hd b) a)
      else Inl ShapeError)"

text \<open>
  \<^verbatim>\<open>a[i]\<close> on a non-empty JAX array: a negative index counts from the end, and an index
  that is still out of range is clamped to the nearest valid one (JAX never raises here).
\<close>

definition jnp_take :: "vector \<Rightarrow> int \<Rightarrow> real" where
  "jnp_take a i =
     (let n = int (length a); j = (if i < 0 then i + n else i)
      in a ! nat (max 0 (min (n - 1) j)))"

text \<open>\<^verbatim>\<open>jnp.linspace(a, b, n)\<close>: \<open>n\<close> evenly spaced points from \<open>a\<close> to \<open>b\<close>, both included.\<close>

definition linspace :: "real \<Rightarrow> real \<Rightarrow> nat \<Rightarrow> vector" where
  "linspace a b n =
     (if n = 1 then [a] else map (\<lambda>i. a + real i * ((b - a) / real (n - 1))) [0..<n])"

text \<open>\<^verbatim>\<open>jnp.mean\<close> of a vector.\<close>

definition mean :: "vector \<Rightarrow> real" where
  "mean a = sum_list a / real (length a)"

text \<open>
  \<^verbatim>\<open>patsy.contrasts.Diff().code_without_intercept(range(0, n)).matrix\<close>, the backward
  difference coding of the patsy library that the notebook calls for the trend and the
  weekday contrasts: an \<open>n \<times> (n - 1)\<close> matrix whose column \<open>j\<close> holds \<open>(j + 1 - n) / n\<close> in rows
  \<open>0..j\<close> and \<open>(j + 1) / n\<close> in the rows below. For three levels it is
  \<open>[[-2/3, -1/3], [1/3, -1/3], [1/3, 2/3]]\<close>. Without levels the library asks NumPy for an
  array of shape \<open>(0, -1)\<close>, which raises \<^verbatim>\<open>ValueError\<close>.
\<close>

definition diff_contrast :: "nat \<Rightarrow> matrix" where
  "diff_contrast n =
     map (\<lambda>i. map (\<lambda>j. if i \<le> j then (real (j + 1) - real n) / real n
                                   else real (j + 1) / real n) [0..<n - 1]) [0..<n]"

definition code_without_intercept :: "nat \<Rightarrow> error + matrix" where
  "code_without_intercept n = (if n = 0 then Inl ValueError else Inr (diff_contrast n))"

section \<open>Auxiliary functions of the notebook\<close>

definition periodic_rbf :: "real \<Rightarrow> real \<Rightarrow> real \<Rightarrow> real" where
  "periodic_rbf x mu sigma =
     (let periodic_distance = min \<bar>x - mu\<bar> (1 - \<bar>x - mu\<bar>)
      in exp (- (periodic_distance ^ 2) / (2 * sigma ^ 2)))"

text \<open>
  \<^verbatim>\<open>compute_doy_basis\<close>. The centres are \<^verbatim>\<open>linspace(1/(2*n), 1 - 1/(2*n), n)\<close>; with
  \<open>n_centers = 0\<close> the Python division \<^verbatim>\<open>1/(2*n_centers)\<close> raises, and a negative count is
  refused by \<^verbatim>\<open>linspace\<close>. Row \<open>i\<close> of the result holds the basis values of observation \<open>i\<close>
  minus their mean.
\<close>

definition month_centers :: "nat \<Rightarrow> vector" where
  "month_centers n = linspace (1 / (2 * real n)) (1 - 1 / (2 * real n)) n"

definition compute_doy_basis :: "vector \<Rightarrow> real \<Rightarrow> int \<Rightarrow> error + matrix" where
  "compute_doy_basis ys sigma n_centers =
     (if n_centers = 0 then Inl ZeroDivisionError
      else if n_centers < 0 then Inl ValueError
      else Inr (map (\<lambda>y. let doy_basis = map (\<lambda>mu. periodic_rbf y mu sigma)
                                               (month_centers (nat n_centers))
                          in map (\<lambda>b. b - mean doy_basis) doy_basis) ys))"

section \<open>The model\<close>

text \<open>
  \<^verbatim>\<open>sample_random_walk\<close>: the knot trajectory. The site \<^verbatim>\<open>log_state_delta\<close> has shape
  \<open>(n_states - 1,)\<close>, which no sampler accepts for \<open>n_states = 0\<close>.
\<close>

definition sample_random_walk :: "matrix \<Rightarrow> nat \<Rightarrow> draws \<Rightarrow> error + vector" where
  "sample_random_walk Ct n_states d =
     (if n_states = 0 then Inl ValueError
      else
        let sigma = exp (log_sigma d);
            delta = map (log_state_delta d) [0..<n_states - 1]
        in case dot Ct delta of
             Inl e \<Rightarrow> Inl e
           | Inr w \<Rightarrow> Inr (map (\<lambda>x. x * sigma + log_state_mean d) w))"

text \<open>
  The index arithmetic of \<^verbatim>\<open>sample_downsampled_random_walk\<close>, per observation index \<open>t\<close>
  and downsampling factor \<open>c\<close>.
\<close>

definition idx_n_weight :: "int \<Rightarrow> nat \<Rightarrow> real" where
  "idx_n_weight c t = real t / real_of_int c"

definition idx_1 :: "int \<Rightarrow> nat \<Rightarrow> int" where
  "idx_1 c t = \<lfloor>idx_n_weight c t\<rfloor>"

definition idx_2 :: "int \<Rightarrow> nat \<Rightarrow> int" where
  "idx_2 c t = \<lceil>idx_n_weight c t\<rceil>"

definition weight_2 :: "int \<Rightarrow> nat \<Rightarrow> real" where
  "weight_2 c t = idx_n_weight c t - real_of_int (idx_1 c t)"

definition sample_downsampled_random_walk ::
    "int \<Rightarrow> matrix \<Rightarrow> nat \<Rightarrow> nat \<Rightarrow> draws \<Rightarrow> error + vector" where
  "sample_downsampled_random_walk c Ct n_obs n_states d =
     (case sample_random_walk Ct n_states d of
        Inl e \<Rightarrow> Inl e
      | Inr log_state_base_downsampled \<Rightarrow>
          Inr (map (\<lambda>t. let state_before = jnp_take log_state_base_downsampled (idx_1 c t);
                            state_after = jnp_take log_state_base_downsampled (idx_2 c t)
                        in (1 - weight_2 c t) * state_before + weight_2 c t * state_after)
                   [0..<n_obs]))"

text \<open>
  \<^verbatim>\<open>sample_wday_effect\<close>: six coefficients through the weekday contrasts, then one entry
  per observation, looked up at \<open>d - 1\<close>. A scalar index into an empty axis raises.
\<close>

definition sample_wday_effect :: "matrix \<Rightarrow> int list \<Rightarrow> draws \<Rightarrow> error + vector" where
  "sample_wday_effect Cw wd d =
     (case dot Cw (map (wday_coefficients d) [0..<6]) of
        Inl e \<Rightarrow> Inl e
      | Inr wday_effects \<Rightarrow>
          if wday_effects = [] \<and> wd \<noteq> [] then Inl IndexError
          else Inr (map (\<lambda>k. jnp_take wday_effects (k - 1)) wd))"

text \<open>
  \<^verbatim>\<open>sample_yday_effect\<close>: the basis passed in is overwritten by one computed at the width
  just drawn.
\<close>

definition sample_yday_effect :: "matrix \<Rightarrow> vector \<Rightarrow> draws \<Rightarrow> error + vector" where
  "sample_yday_effect Cy ys d =
     (case compute_doy_basis ys (yday_rbf_width d) 12 of
        Inl e \<Rightarrow> Inl e
      | Inr B \<Rightarrow> dot B (map (yday_coefficients d) [0..<12]))"

text \<open>The deterministic site \<^verbatim>\<open>elasticity\<close> and \<^verbatim>\<open>sample_price_effect\<close>.\<close>

definition elasticity :: "draws \<Rightarrow> real" where
  "elasticity d = - 1 * log_elasticity d"

definition sample_price_effect :: "vector \<Rightarrow> draws \<Rightarrow> vector" where
  "sample_price_effect lpc d = map (\<lambda>p. p * elasticity d) lpc"

text \<open>
  The body of \<^verbatim>\<open>model_local_level_poisson\<close>, called with the keys of the argument
  dictionary. Its first block chooses the trend: the knot trajectory itself when there are as
  many knots as observations, the interpolated one otherwise.
\<close>

definition log_state_base :: "model_arguments \<Rightarrow> draws \<Rightarrow> error + vector" where
  "log_state_base a d =
     (let n_obs = length (sales a);
          n_states = length (contrasts_sdif_t a)
      in if n_obs = n_states
         then sample_random_walk (contrasts_sdif_t a) n_states d
         else sample_downsampled_random_walk (downsampling_factor a)
                (contrasts_sdif_t a) n_obs n_states d)"

text \<open>
  The value of the model is the deterministic site \<^verbatim>\<open>state\<close>, the rate handed to the
  Poisson likelihood. The price effect is computed and not used: the source adds it only in
  a comment.
\<close>

definition model_local_level_poisson :: "model_arguments \<Rightarrow> draws \<Rightarrow> error + vector" where
  "model_local_level_poisson a d =
     (case log_state_base a d of
        Inl e \<Rightarrow> Inl e
      | Inr trend \<Rightarrow>
     (case sample_wday_effect (contrasts_wday a) (wday a) d of
        Inl e \<Rightarrow> Inl e
      | Inr wday_effect \<Rightarrow>
     (case sample_yday_effect (contrasts_yday a) (yday_fraction a) d of
        Inl e \<Rightarrow> Inl e
      | Inr yday_effect \<Rightarrow>
     (let price_effect = sample_price_effect (log_price_centered a) d
      in case vadd trend yday_effect of
           Inl e \<Rightarrow> Inl e
         | Inr s \<Rightarrow>
       (case vadd s wday_effect of
           Inl e \<Rightarrow> Inl e
         | Inr log_rate \<Rightarrow> Inr (map exp log_rate))))))"

section \<open>Preparing the model arguments\<close>

text \<open>
  The knot count of \<^verbatim>\<open>prepare_model_arguments\<close>: the observation count for factor one,
  otherwise \<^verbatim>\<open>int(np.floor(n_obs/downsampling_factor) + 1)\<close>, where the Python division
  raises for a factor of zero.
\<close>

definition knot_count :: "nat \<Rightarrow> int \<Rightarrow> error + int" where
  "knot_count n_obs c =
     (if c = 1 then Inr (int n_obs)
      else if c = 0 then Inl ZeroDivisionError
      else Inr (\<lfloor>real n_obs / real_of_int c\<rfloor> + 1))"

definition prepare_model_arguments ::
    "int list \<Rightarrow> vector \<Rightarrow> int list \<Rightarrow> vector \<Rightarrow> int \<Rightarrow> error + model_arguments" where
  "prepare_model_arguments s lp wd ys c =
     (case knot_count (length s) c of
        Inl e \<Rightarrow> Inl e
      | Inr n_states \<Rightarrow>
     (case code_without_intercept (nat n_states) of
        Inl e \<Rightarrow> Inl e
      | Inr Ct \<Rightarrow>
     (case code_without_intercept 7 of
        Inl e \<Rightarrow> Inl e
      | Inr Cw \<Rightarrow>
     (case compute_doy_basis ys (30 / 365.25) 12 of
        Inl e \<Rightarrow> Inl e
      | Inr Cy \<Rightarrow>
          Inr \<lparr>sales = s, log_price_centered = map (\<lambda>p. p - mean lp) lp, wday = wd,
               yday_fraction = ys, downsampling_factor = c, contrasts_sdif_t = Ct,
               contrasts_wday = Cw, contrasts_yday = Cy\<rparr>))))"

section \<open>Concrete inputs\<close>

text \<open>
  A series of two observations with as many knots, and one of three observations on two
  knots (downsampling factor two), with the contrast matrices \<^verbatim>\<open>prepare_model_arguments\<close>
  builds for them. The draws put every seasonal coefficient to zero and every trend
  innovation to two.
\<close>

definition example_draws :: draws where
  "example_draws =
     \<lparr>log_sigma = 0, log_state_mean = 1, log_state_delta = (\<lambda>_. 2),
      wday_coefficients = (\<lambda>_. 0), yday_rbf_width = 1, yday_coefficients = (\<lambda>_. 0),
      log_elasticity = 3\<rparr>"

definition example_direct :: model_arguments where
  "example_direct =
     \<lparr>sales = [4, 9], log_price_centered = [- 1, 1], wday = [1, 2],
      yday_fraction = [0, 1 / 2], downsampling_factor = 1,
      contrasts_sdif_t = diff_contrast 2, contrasts_wday = diff_contrast 7,
      contrasts_yday = []\<rparr>"

definition example_downsampled :: model_arguments where
  "example_downsampled =
     \<lparr>sales = [4, 9, 7], log_price_centered = [- 1, 0, 1], wday = [1, 2, 3],
      yday_fraction = [0, 1 / 4, 1 / 2], downsampling_factor = 2,
      contrasts_sdif_t = diff_contrast 2, contrasts_wday = diff_contrast 7,
      contrasts_yday = []\<rparr>"

section \<open>Arrays: lengths, indexing, products\<close>

lemma length_dot: "dot M v = Inr w \<Longrightarrow> length w = length M"
  by (auto simp: dot_def split: if_splits)

lemma sum_list_map2_nth:
  "length xs = length ys \<Longrightarrow>
   sum_list (map2 (*) xs ys) = (\<Sum>j<length ys. xs ! j * (ys ! j :: real))"
proof (induction xs ys rule: list_induct2)
  case Nil
  then show ?case by simp
next
  case (Cons x xs y ys)
  have "(\<Sum>j<Suc (length ys). (x # xs) ! j * (y # ys) ! j) =
        x * y + (\<Sum>j<length ys. xs ! j * ys ! j)"
    by (subst sum.lessThan_Suc_shift) simp
  with Cons show ?case by simp
qed

lemma sum_list_map2_zero: "sum_list (map2 (*) row (map (\<lambda>_. 0) js)) = (0::real)"
  by (induction row arbitrary: js) (auto split: list.splits simp: zip_Cons1)

lemma dot_zero:
  assumes "list_all (\<lambda>row. length row = length js) M"
  shows "dot M (map (\<lambda>_. 0) js) = Inr (map (\<lambda>_. 0) M)"
  using assms by (simp add: dot_def sum_list_map2_zero)

lemma jnp_take_index_bound:
  assumes "xs \<noteq> []"
  shows "nat (max 0 (min (int (length xs) - 1) (if i < 0 then i + int (length xs) else i)))
         < length xs"
  using assms by (cases xs) auto

lemma jnp_take_mem: "xs \<noteq> [] \<Longrightarrow> jnp_take xs i \<in> set xs"
  using jnp_take_index_bound [of xs i] by (simp add: jnp_take_def Let_def)

lemma jnp_take_map: "xs \<noteq> [] \<Longrightarrow> jnp_take (map f xs) i = f (jnp_take xs i)"
  using jnp_take_index_bound [of xs i] by (simp add: jnp_take_def Let_def)

lemma jnp_take_in_range:
  assumes "k < length xs"
  shows "jnp_take xs (int k) = xs ! k"
proof -
  have "max 0 (min (int (length xs) - 1) (int k)) = int k"
    using assms by linarith
  then show ?thesis by (simp add: jnp_take_def Let_def)
qed

lemma vadd_same_length:
  "length a = length b \<Longrightarrow> vadd a b = Inr (map (\<lambda>t. a ! t + b ! t) [0..<length a])"
  by (auto simp: vadd_def intro!: nth_equalityI)

lemma vadd_shift: "vadd (map (\<lambda>x. x + k) a) b = map_sum id (map (\<lambda>x. x + k)) (vadd a b)"
proof -
  have "map2 (+) (map (\<lambda>x. x + k) a) b = map (\<lambda>x. x + k) (map2 (+) a b)"
    by (rule nth_equalityI) (simp_all add: algebra_simps)
  moreover have "length a = 1 \<Longrightarrow> hd (map (\<lambda>x. x + k) a) = hd a + k"
    by (cases a) auto
  ultimately show ?thesis
    by (auto simp: vadd_def algebra_simps)
qed

section \<open>The contrast coding\<close>

lemma length_diff_contrast: "length (diff_contrast n) = n"
  by (simp add: diff_contrast_def)

lemma diff_contrast_columns: "list_all (\<lambda>row. length row = n - 1) (diff_contrast n)"
  by (simp add: diff_contrast_def list_all_iff)

lemma diff_contrast_2: "diff_contrast 2 = [[- 1 / 2], [1 / 2]]"
  by (simp add: diff_contrast_def upt_rec)

lemma dot_diff_contrast:
  assumes "length v = n - 1"
  shows "dot (diff_contrast n) v =
         Inr (map (\<lambda>i. \<Sum>j<n - 1. (if i \<le> j then (real (j + 1) - real n) / real n
                                   else real (j + 1) / real n) * v ! j) [0..<n])"
proof -
  have "list_all (\<lambda>row. length row = length v) (diff_contrast n)"
    using assms diff_contrast_columns [of n] by simp
  moreover have "sum_list (map2 (*) (map f [0..<n - 1]) v) = (\<Sum>j<n - 1. f j * v ! j)"
    for f :: "nat \<Rightarrow> real"
    using sum_list_map2_nth [of "map f [0..<n - 1]" v] assms by simp
  ultimately show ?thesis
    by (simp add: dot_def diff_contrast_def)
qed

lemma diff_contrast_increment:
  assumes "i < n - 1"
  shows "(\<Sum>j<n - 1. (if Suc i \<le> j then (real (j + 1) - real n) / real n
                                   else real (j + 1) / real n) * v j)
       - (\<Sum>j<n - 1. (if i \<le> j then (real (j + 1) - real n) / real n
                                   else real (j + 1) / real n) * v j) = (v i :: real)"
proof -
  have n: "real n \<noteq> 0" using assms by auto
  have "(\<Sum>j<n - 1. (if Suc i \<le> j then (real (j + 1) - real n) / real n
                                   else real (j + 1) / real n) * v j)
       - (\<Sum>j<n - 1. (if i \<le> j then (real (j + 1) - real n) / real n
                                   else real (j + 1) / real n) * v j)
       = (\<Sum>j<n - 1. if j = i then v j else 0)"
    unfolding sum_subtractf [symmetric]
    by (rule sum.cong) (use n in \<open>auto simp: field_simps\<close>)
  also have "\<dots> = v i" using assms by simp
  finally show ?thesis .
qed

lemma diff_contrast_column_sum:
  assumes "j < n - 1"
  shows "(\<Sum>i<n. (if i \<le> j then (real (j + 1) - real n) / real n
                  else real (j + 1) / real n)) = 0"
proof -
  have n: "real n \<noteq> 0" using assms by auto
  have split: "{..<n} = {..j} \<union> {Suc j..<n}" using assms by auto
  have "(\<Sum>i<n. (if i \<le> j then (real (j + 1) - real n) / real n else real (j + 1) / real n))
      = (\<Sum>i\<in>{..j}. (real (j + 1) - real n) / real n)
        + (\<Sum>i\<in>{Suc j..<n}. real (j + 1) / real n)"
    unfolding split by (subst sum.union_disjoint) auto
  also have "\<dots> = real (j + 1) * ((real (j + 1) - real n) / real n)
                  + real (n - Suc j) * (real (j + 1) / real n)"
    by simp
  also have "\<dots> = 0" using assms n by (simp add: field_simps of_nat_diff)
  finally show ?thesis .
qed

lemma diff_contrast_trajectory_sum:
  "(\<Sum>i<n. \<Sum>j<n - 1. (if i \<le> j then (real (j + 1) - real n) / real n
                                   else real (j + 1) / real n) * v j) = (0::real)"
proof -
  have "(\<Sum>i<n. \<Sum>j<n - 1. (if i \<le> j then (real (j + 1) - real n) / real n
                                   else real (j + 1) / real n) * v j)
     = (\<Sum>j<n - 1. (\<Sum>i<n. (if i \<le> j then (real (j + 1) - real n) / real n
                                   else real (j + 1) / real n)) * v j)"
    by (subst sum.swap) (simp add: sum_distrib_right)
  also have "\<dots> = 0" by (simp add: diff_contrast_column_sum)
  finally show ?thesis .
qed

section \<open>The seasonal basis\<close>

lemma length_month_centers: "length (month_centers n) = n"
  by (simp add: month_centers_def linspace_def)

lemma sum_list_sub_const:
  "sum_list (map (\<lambda>b. b - m) row) = sum_list row - real (length row) * (m::real)"
  by (induction row) (simp_all add: algebra_simps)

lemma sum_list_centered: "row \<noteq> [] \<Longrightarrow> sum_list (map (\<lambda>b. b - mean row) row) = 0"
  by (simp add: sum_list_sub_const mean_def)

lemma periodic_rbf_neg_width: "periodic_rbf x mu (- sigma) = periodic_rbf x mu sigma"
  by (simp add: periodic_rbf_def)

lemma compute_doy_basis_shape:
  assumes "0 < n"
  shows "\<exists>B. compute_doy_basis ys sigma n = Inr B \<and> length B = length ys \<and>
             list_all (\<lambda>row. length row = nat n) B"
  using assms by (simp add: compute_doy_basis_def Let_def list_all_iff length_month_centers)

section \<open>The trend\<close>

lemma length_sample_random_walk:
  "sample_random_walk Ct n d = Inr w \<Longrightarrow> length w = length Ct"
  by (auto simp: sample_random_walk_def Let_def split: if_splits sum.splits dest: length_dot)

lemma sample_random_walk_knots:
  assumes "sample_random_walk Ct n d = Inr w" "n = length Ct"
  shows "w \<noteq> []"
proof -
  have "n \<noteq> 0" using assms(1) by (auto simp: sample_random_walk_def split: if_splits)
  then show ?thesis using length_sample_random_walk [OF assms(1)] assms(2) by auto
qed

lemma idx_n_weight_knot: "0 < c \<Longrightarrow> idx_n_weight c (nat c * k) = real k"
  by (simp add: idx_n_weight_def)

lemma idx_1_eq: "idx_1 c t = int t div c"
  by (simp add: idx_1_def idx_n_weight_def floor_divide_of_int_eq [where 'a = real, symmetric])

lemma idx_2_eq: "idx_2 c t = - (- int t div c)"
  by (simp add: idx_2_def idx_n_weight_def ceiling_divide_eq_div [where 'a = real, symmetric])

lemma idx_2_cases:
  "0 < c \<Longrightarrow> idx_2 c t = (if int t mod c = 0 then int t div c else int t div c + 1)"
  by (simp add: idx_2_eq zdiv_zminus1_eq_if)

lemma knot_count_eq: "c \<noteq> 0 \<Longrightarrow> c \<noteq> 1 \<Longrightarrow> knot_count n c = Inr (int n div c + 1)"
  by (simp add: knot_count_def floor_divide_of_int_eq [where 'a = real, symmetric])

text \<open>The lower interpolation index always names a knot.\<close>

lemma idx_1_in_range:
  assumes "0 < c" "t < n"
  shows "0 \<le> idx_1 c t \<and> idx_1 c t < int n div c + 1"
proof -
  have "int t div c \<le> int n div c"
    using assms by (intro zdiv_mono1) auto
  moreover have "0 \<le> int t div c"
    using assms by (simp add: pos_imp_zdiv_nonneg_iff)
  ultimately show ?thesis by (simp add: idx_1_eq)
qed

text \<open>
  With the knot count of \<^verbatim>\<open>prepare_model_arguments\<close>, an observation index \<open>c \<cdot> k\<close> within
  the series belongs to a knot \<open>k\<close> of the trajectory.
\<close>

lemma knot_aligned_index_in_range:
  assumes "0 < c" "nat c * k < n"
  shows "int k < int n div c + 1"
proof -
  have "int (nat c * k) \<le> int n"
    using assms(2) by linarith
  moreover have "int (nat c) = c"
    using assms(1) by simp
  ultimately have "c * int k \<le> int n"
    by (simp only: of_nat_mult)
  then have "(c * int k) div c \<le> int n div c"
    using assms(1) by (intro zdiv_mono1) auto
  then show ?thesis using assms(1) by simp
qed

text \<open>
  The upper interpolation index names a knot at every observation exactly when the
  observation count leaves a remainder of at most one on division by the factor.
\<close>

lemma idx_2_in_range_iff:
  assumes "2 \<le> c" "1 \<le> n"
  shows "(\<forall>t<n. idx_2 c t < int n div c + 1) \<longleftrightarrow> int n mod c \<le> 1"
proof
  assume all: "\<forall>t<n. idx_2 c t < int n div c + 1"
  show "int n mod c \<le> 1"
  proof (rule ccontr)
    assume "\<not> int n mod c \<le> 1"
    then have r: "2 \<le> int n mod c" by simp
    have rc: "int n mod c < c" using assms by simp
    have n: "int n = c * (int n div c) + int n mod c" by simp
    have e: "int (n - 1) = c * (int n div c) + (int n mod c - 1)"
      using assms n by (simp add: of_nat_diff)
    have d: "int (n - 1) div c = int n div c"
      using e r rc int_div_pos_eq [of "int (n - 1)" c "int n div c" "int n mod c - 1"]
      by simp
    have m: "int (n - 1) mod c = int n mod c - 1"
      using e r rc int_mod_pos_eq [of "int (n - 1)" c "int n div c" "int n mod c - 1"]
      by simp
    have "idx_2 c (n - 1) = int n div c + 1"
      using assms r d m by (simp add: idx_2_cases)
    moreover have "n - 1 < n" using assms by simp
    ultimately show False using all by fastforce
  qed
next
  assume r: "int n mod c \<le> 1"
  show "\<forall>t<n. idx_2 c t < int n div c + 1"
  proof (intro allI impI)
    fix t assume t: "t < n"
    have le: "int t div c \<le> int n div c"
      using assms t by (intro zdiv_mono1) auto
    show "idx_2 c t < int n div c + 1"
    proof (cases "int t mod c = 0")
      case True
      then show ?thesis using le assms by (simp add: idx_2_cases)
    next
      case False
      have "int t div c \<noteq> int n div c"
      proof
        assume e: "int t div c = int n div c"
        have "int t = c * (int n div c) + int t mod c"
          using e [symmetric] by simp
        moreover have "int n = c * (int n div c) + int n mod c"
          by simp
        moreover have "int t < int n" using t by simp
        ultimately have "int t mod c < int n mod c" by linarith
        moreover have "0 \<le> int t mod c" using assms by simp
        ultimately show False using False r by linarith
      qed
      then show ?thesis using le assms False by (simp add: idx_2_cases)
    qed
  qed
qed

section \<open>The baseline draw shifts the log-rate\<close>

lemma sample_random_walk_shift:
  "sample_random_walk Ct n (d\<lparr>log_state_mean := log_state_mean d + k\<rparr>) =
   map_sum id (map (\<lambda>x. x + k)) (sample_random_walk Ct n d)"
  by (simp add: sample_random_walk_def Let_def add.assoc split: sum.splits)

lemma sample_downsampled_random_walk_shift:
  assumes "n_states = length Ct"
  shows "sample_downsampled_random_walk c Ct n_obs n_states
           (d\<lparr>log_state_mean := log_state_mean d + k\<rparr>) =
         map_sum id (map (\<lambda>x. x + k)) (sample_downsampled_random_walk c Ct n_obs n_states d)"
proof (cases "sample_random_walk Ct n_states d")
  case (Inl e)
  then show ?thesis
    by (simp add: sample_downsampled_random_walk_def sample_random_walk_shift)
next
  case (Inr w)
  have ne: "w \<noteq> []" using Inr assms by (rule sample_random_walk_knots)
  have "(1 - u) * (p + k) + u * (q + k) = (1 - u) * p + u * q + k" for u p q :: real
    by (simp add: algebra_simps)
  then show ?thesis
    using Inr by (simp add: sample_downsampled_random_walk_def sample_random_walk_shift
        jnp_take_map [OF ne] Let_def)
qed

lemma log_state_base_shift:
  "log_state_base a (d\<lparr>log_state_mean := log_state_mean d + k\<rparr>) =
   map_sum id (map (\<lambda>x. x + k)) (log_state_base a d)"
  by (simp add: log_state_base_def Let_def sample_random_walk_shift
      sample_downsampled_random_walk_shift)

lemma sample_wday_effect_baseline:
  "sample_wday_effect Cw wd (d\<lparr>log_state_mean := m\<rparr>) = sample_wday_effect Cw wd d"
  by (simp add: sample_wday_effect_def cong: sum.case_cong)

lemma sample_yday_effect_baseline:
  "sample_yday_effect Cy ys (d\<lparr>log_state_mean := m\<rparr>) = sample_yday_effect Cy ys d"
  by (simp add: sample_yday_effect_def cong: sum.case_cong)

lemma model_shift:
  "model_local_level_poisson a (d\<lparr>log_state_mean := log_state_mean d + k\<rparr>) =
   map_sum id (map (\<lambda>r. r * exp k)) (model_local_level_poisson a d)"
proof (cases "log_state_base a d")
  case (Inl e)
  then show ?thesis by (simp add: model_local_level_poisson_def log_state_base_shift)
next
  case tr: (Inr trend)
  show ?thesis
  proof (cases "sample_wday_effect (contrasts_wday a) (wday a) d")
    case (Inl e)
    then show ?thesis
      using tr by (simp add: model_local_level_poisson_def log_state_base_shift
          sample_wday_effect_baseline)
  next
    case w: (Inr wday_effect)
    show ?thesis
    proof (cases "sample_yday_effect (contrasts_yday a) (yday_fraction a) d")
      case (Inl e)
      then show ?thesis
        using tr w by (simp add: model_local_level_poisson_def log_state_base_shift
            sample_wday_effect_baseline sample_yday_effect_baseline)
    next
      case y: (Inr yday_effect)
      show ?thesis
      proof (cases "vadd trend yday_effect")
        case (Inl e)
        then show ?thesis
          using tr w y by (simp add: model_local_level_poisson_def log_state_base_shift
              sample_wday_effect_baseline sample_yday_effect_baseline vadd_shift)
      next
        case s: (Inr s)
        show ?thesis
          using tr w y s
          by (cases "vadd s wday_effect")
            (simp_all add: model_local_level_poisson_def log_state_base_shift
              sample_wday_effect_baseline sample_yday_effect_baseline vadd_shift exp_add)
      qed
    qed
  qed
qed

lemma model_positive:
  "model_local_level_poisson a d = Inr state \<Longrightarrow> list_all (\<lambda>r. 0 < r) state"
  by (auto simp: model_local_level_poisson_def Let_def list_all_iff split: sum.splits)

lemma exceed_all:
  assumes "list_all (\<lambda>r. 0 < r) (xs :: real list)"
  shows "\<exists>k. list_all (\<lambda>r. B < r * exp k) xs"
  using assms
proof (induction xs)
  case Nil
  then show ?case by simp
next
  case (Cons x xs)
  then obtain k1 where k1: "list_all (\<lambda>r. B < r * exp k1) xs"
    and x: "0 < x" and pos: "list_all (\<lambda>r. 0 < r) xs"
    by auto
  define k2 where "k2 = ln ((\<bar>B\<bar> + 1) / x)"
  have "x * exp k2 = \<bar>B\<bar> + 1" using x by (simp add: k2_def exp_ln)
  then have k2: "B < x * exp k2" by linarith
  let ?k = "max k1 k2"
  have "B < x * exp ?k"
  proof -
    have "x * exp k2 \<le> x * exp ?k" using x by simp
    with k2 show ?thesis by linarith
  qed
  moreover have "list_all (\<lambda>r. B < r * exp ?k) xs"
  proof -
    have "B < r * exp ?k" if "r \<in> set xs" for r
    proof -
      have "0 < r" "B < r * exp k1" using that pos k1 by (auto simp: list_all_iff)
      moreover have "r * exp k1 \<le> r * exp ?k" using \<open>0 < r\<close> by simp
      ultimately show ?thesis by linarith
    qed
    then show ?thesis by (simp add: list_all_iff)
  qed
  ultimately show ?case by auto
qed

section \<open>The price draw is not read\<close>

lemma sample_random_walk_elasticity:
  "sample_random_walk Ct n (d\<lparr>log_elasticity := e\<rparr>) = sample_random_walk Ct n d"
  by (simp add: sample_random_walk_def cong: sum.case_cong)

lemma sample_downsampled_random_walk_elasticity:
  "sample_downsampled_random_walk c Ct n k (d\<lparr>log_elasticity := e\<rparr>) =
   sample_downsampled_random_walk c Ct n k d"
  by (simp add: sample_downsampled_random_walk_def sample_random_walk_elasticity)

lemma log_state_base_elasticity:
  "log_state_base (a\<lparr>log_price_centered := p\<rparr>) (d\<lparr>log_elasticity := e\<rparr>) =
   log_state_base a d"
  by (simp add: log_state_base_def Let_def sample_random_walk_elasticity
      sample_downsampled_random_walk_elasticity)

lemma sample_wday_effect_elasticity:
  "sample_wday_effect Cw wd (d\<lparr>log_elasticity := e\<rparr>) = sample_wday_effect Cw wd d"
  by (simp add: sample_wday_effect_def cong: sum.case_cong)

lemma sample_yday_effect_elasticity:
  "sample_yday_effect Cy ys (d\<lparr>log_elasticity := e\<rparr>) = sample_yday_effect Cy ys d"
  by (simp add: sample_yday_effect_def cong: sum.case_cong)

section \<open>The concrete inputs, evaluated\<close>

lemma sample_wday_effect_zero:
  assumes "wday_coefficients d = (\<lambda>_. 0)"
  shows "sample_wday_effect (diff_contrast 7) wd d = Inr (map (\<lambda>_. 0) wd)"
proof -
  have "list_all (\<lambda>row. length row = length [0..<6::nat]) (diff_contrast 7)"
    by (simp add: diff_contrast_def list_all_iff)
  then have e: "dot (diff_contrast 7) (map (\<lambda>_. 0) [0..<6]) =
                Inr (map (\<lambda>_. 0) (diff_contrast 7))"
    by (rule dot_zero)
  have ne: "map (\<lambda>_. 0::real) (diff_contrast 7) \<noteq> []"
    using length_diff_contrast [of 7] by auto
  have "jnp_take (map (\<lambda>_. 0) (diff_contrast 7)) i = 0" for i
    using jnp_take_mem [OF ne, of i] by auto
  then show ?thesis
    using ne by (simp add: sample_wday_effect_def assms e del: map_is_Nil_conv)
qed

lemma sample_yday_effect_zero:
  assumes "yday_coefficients d = (\<lambda>_. 0)"
  shows "sample_yday_effect Cy ys d = Inr (map (\<lambda>_. 0) ys)"
proof -
  obtain B where B: "compute_doy_basis ys (yday_rbf_width d) 12 = Inr B"
    "length B = length ys" "list_all (\<lambda>row. length row = length [0..<12::nat]) B"
    using compute_doy_basis_shape [of 12 ys "yday_rbf_width d"] by auto
  have "dot B (map (\<lambda>_. 0) [0..<12]) = Inr (map (\<lambda>_. 0) B)"
    using B(3) by (rule dot_zero)
  moreover have "map (\<lambda>_. 0::real) B = map (\<lambda>_. 0) ys"
    using B(2) by (intro nth_equalityI) simp_all
  ultimately show ?thesis by (simp add: sample_yday_effect_def assms B(1))
qed

lemma example_knots: "sample_random_walk (diff_contrast 2) 2 example_draws = Inr [0, 2]"
  by (simp add: diff_contrast_2 sample_random_walk_def dot_def example_draws_def)

lemma example_direct_trend: "log_state_base example_direct example_draws = Inr [0, 2]"
  by (simp add: log_state_base_def example_direct_def example_knots length_diff_contrast)

lemma example_interpolated:
  "sample_downsampled_random_walk 2 (diff_contrast 2) 3 2 example_draws = Inr [0, 1, 2]"
  by (simp add: sample_downsampled_random_walk_def example_knots upt_rec jnp_take_def
      idx_1_def idx_2_def weight_2_def idx_n_weight_def)

lemma example_downsampled_trend:
  "log_state_base example_downsampled example_draws = Inr [0, 1, 2]"
  by (simp add: log_state_base_def example_downsampled_def example_interpolated
      length_diff_contrast numeral_3_eq_3 [symmetric])

lemma example_direct_wday:
  "sample_wday_effect (contrasts_wday example_direct) (wday example_direct) example_draws =
   Inr [0, 0]"
  by (simp add: example_direct_def sample_wday_effect_zero example_draws_def)

lemma example_direct_yday:
  "sample_yday_effect (contrasts_yday example_direct) (yday_fraction example_direct)
     example_draws = Inr [0, 0]"
  by (simp add: example_direct_def sample_yday_effect_zero example_draws_def)

lemma example_direct_rate:
  "model_local_level_poisson example_direct example_draws = Inr [1, exp 2]"
  by (simp add: model_local_level_poisson_def example_direct_trend example_direct_wday
      example_direct_yday vadd_def)

section \<open>Claims\<close>

subsection \<open>The emission rate\<close>

text \<open>
  Claim C1. The rate handed to the Poisson likelihood is the elementwise exponential of
  trend plus day-of-year effect plus weekday effect and of nothing else: replacing the
  centred log price and the draw of \<^verbatim>\<open>log_elasticity\<close> by any other values leaves the
  outcome of the model unchanged, and where the three components have one entry per
  observation the rate at observation \<open>t\<close> is the exponential of their sum at \<open>t\<close>.
\<close>

theorem rate_ignores_price_effect:
  "model_local_level_poisson (a\<lparr>log_price_centered := p\<rparr>) (d\<lparr>log_elasticity := e\<rparr>) =
     model_local_level_poisson a d \<and>
   (\<forall>tr w y.
      log_state_base a d = Inr tr \<and>
      sample_wday_effect (contrasts_wday a) (wday a) d = Inr w \<and>
      sample_yday_effect (contrasts_yday a) (yday_fraction a) d = Inr y \<and>
      length y = length tr \<and> length w = length tr \<longrightarrow>
      model_local_level_poisson a d =
        Inr (map (\<lambda>t. exp (tr ! t + y ! t + w ! t)) [0..<length tr]))"
proof (intro conjI allI impI)
  show "model_local_level_poisson (a\<lparr>log_price_centered := p\<rparr>) (d\<lparr>log_elasticity := e\<rparr>) =
        model_local_level_poisson a d"
    by (simp add: model_local_level_poisson_def log_state_base_elasticity
        sample_wday_effect_elasticity sample_yday_effect_elasticity Let_def
        cong: sum.case_cong)
next
  fix tr w y
  assume h: "log_state_base a d = Inr tr \<and>
      sample_wday_effect (contrasts_wday a) (wday a) d = Inr w \<and>
      sample_yday_effect (contrasts_yday a) (yday_fraction a) d = Inr y \<and>
      length y = length tr \<and> length w = length tr"
  then show "model_local_level_poisson a d =
        Inr (map (\<lambda>t. exp (tr ! t + y ! t + w ! t)) [0..<length tr])"
    by (simp add: model_local_level_poisson_def vadd_same_length)
qed

theorem rate_ignores_price_effect_witness:
  "model_local_level_poisson example_direct example_draws = Inr [1, exp 2] \<and>
   model_local_level_poisson (example_direct\<lparr>log_price_centered := [5, 7]\<rparr>)
     (example_draws\<lparr>log_elasticity := - 4\<rparr>) = Inr [1, exp 2]"
proof -
  have "log_state_base example_direct example_draws = Inr [0, 2] \<and>
      sample_wday_effect (contrasts_wday example_direct) (wday example_direct) example_draws
        = Inr [0, 0] \<and>
      sample_yday_effect (contrasts_yday example_direct) (yday_fraction example_direct)
        example_draws = Inr [0, 0] \<and>
      length [0, 0 :: real] = length [0, 2 :: real] \<and>
      length [0, 0 :: real] = length [0, 2 :: real]"
    by (simp add: example_direct_trend example_direct_wday example_direct_yday)
  with rate_ignores_price_effect
         [where a = example_direct and p = "[5, 7]" and d = example_draws and e = "- 4"]
  show ?thesis by (simp add: upt_rec)
qed

text \<open>
  Claim C4, as stated, asks for a ceiling on the rate. There is none: on the two-observation
  series no bound holds for every baseline draw.
\<close>

theorem rate_ceiling_counterexample:
  "\<not> (\<exists>B. \<forall>m state.
         model_local_level_poisson example_direct (example_draws\<lparr>log_state_mean := m\<rparr>)
           = Inr state \<longrightarrow> list_all (\<lambda>r. r \<le> B) state)"
proof
  assume "\<exists>B. \<forall>m state.
         model_local_level_poisson example_direct (example_draws\<lparr>log_state_mean := m\<rparr>)
           = Inr state \<longrightarrow> list_all (\<lambda>r. r \<le> B) state"
  then obtain B where B: "\<And>m state.
         model_local_level_poisson example_direct (example_draws\<lparr>log_state_mean := m\<rparr>)
           = Inr state \<Longrightarrow> list_all (\<lambda>r. r \<le> B) state"
    by blast
  have "model_local_level_poisson example_direct
          (example_draws\<lparr>log_state_mean := log_state_mean example_draws + B\<rparr>)
        = Inr [exp B, exp 2 * exp B]"
    by (simp add: model_shift example_direct_rate)
  from B [OF this] have "exp B \<le> B" by simp
  moreover have "1 + B \<le> exp B" by (rule exp_ge_add_one_self)
  ultimately show False by linarith
qed

text \<open>
  Claim C4, amended. The rate is the bare exponential of the log-rate. Every entry of a
  rate the model returns is strictly positive, and no ceiling holds: for every bound there
  is a baseline draw, everything else unchanged, at which the model returns a rate of the
  same length with every entry above the bound.
\<close>

theorem rate_positive_and_unbounded:
  assumes "model_local_level_poisson a d = Inr state"
  shows "list_all (\<lambda>r. 0 < r) state \<and>
         (\<forall>B. \<exists>m state'.
            model_local_level_poisson a (d\<lparr>log_state_mean := m\<rparr>) = Inr state' \<and>
            length state' = length state \<and> list_all (\<lambda>r. B < r) state')"
proof (intro conjI allI)
  show pos: "list_all (\<lambda>r. 0 < r) state"
    using assms by (rule model_positive)
  fix B
  obtain k where k: "list_all (\<lambda>r. B < r * exp k) state"
    using exceed_all [OF pos] by blast
  have "model_local_level_poisson a (d\<lparr>log_state_mean := log_state_mean d + k\<rparr>) =
        Inr (map (\<lambda>r. r * exp k) state)"
    using assms by (simp add: model_shift)
  moreover have "list_all (\<lambda>r. B < r) (map (\<lambda>r. r * exp k) state)"
    using k by (simp add: list_all_iff)
  ultimately show "\<exists>m state'.
      model_local_level_poisson a (d\<lparr>log_state_mean := m\<rparr>) = Inr state' \<and>
      length state' = length state \<and> list_all (\<lambda>r. B < r) state'"
    by force
qed

theorem rate_positive_and_unbounded_witness:
  "model_local_level_poisson example_direct example_draws = Inr [1, exp 2] \<and>
   list_all (\<lambda>r. 0 < r) [1, exp 2 :: real] \<and>
   (\<forall>B. \<exists>m state'.
      model_local_level_poisson example_direct (example_draws\<lparr>log_state_mean := m\<rparr>)
        = Inr state' \<and>
      length state' = length [1, exp 2 :: real] \<and> list_all (\<lambda>r. B < r) state')"
  using rate_positive_and_unbounded [OF example_direct_rate] example_direct_rate
  by blast

subsection \<open>The price elasticity\<close>

text \<open>
  Claim C3 says that the elasticity comes from \<^verbatim>\<open>log_elasticity\<close> by a transform that
  fixes its sign. The code multiplies the draw by \<open>-1\<close>: a draw of \<open>1\<close> gives the elasticity
  \<open>-1\<close> and a draw of \<open>-1\<close> gives \<open>1\<close>, and the price effect of a unit centred log price
  follows with either sign.
\<close>

theorem elasticity_takes_both_signs:
  "elasticity (d\<lparr>log_elasticity := 1\<rparr>) = - 1 \<and>
   elasticity (d\<lparr>log_elasticity := - 1\<rparr>) = 1 \<and>
   sample_price_effect [1] (d\<lparr>log_elasticity := 1\<rparr>) = [- 1] \<and>
   sample_price_effect [1] (d\<lparr>log_elasticity := - 1\<rparr>) = [1]"
  by (simp add: elasticity_def sample_price_effect_def)

subsection \<open>The successive-difference contrasts\<close>

text \<open>
  Claim C2, as stated, has the trajectory start at zero. For two levels and the innovation
  \<open>1\<close> the contrast matrix gives the trajectory \<open>[-1/2, 1/2]\<close>, whose first value is not
  zero.
\<close>

theorem contrast_first_value_counterexample:
  "code_without_intercept 2 = Inr [[- 1 / 2], [1 / 2]] \<and>
   dot [[- 1 / 2], [1 / 2]] [1] = Inr [- 1 / 2, 1 / 2] \<and>
   hd [- 1 / 2, 1 / 2 :: real] \<noteq> 0"
  by (simp add: code_without_intercept_def diff_contrast_2 dot_def)

text \<open>
  Claim C2, amended. For every \<open>n \<ge> 2\<close> the contrast matrix for \<open>n\<close> levels has \<open>n\<close> rows of
  \<open>n - 1\<close> entries, and for every innovation vector \<open>v\<close> of length \<open>n - 1\<close> the trajectory
  \<open>M \<cdot> v\<close> has \<open>n\<close> entries whose successive differences are exactly the entries of \<open>v\<close>
  and which sum to zero: the trajectory is centred, it does not start at zero.
\<close>

theorem contrast_increments_and_centring:
  assumes "2 \<le> n" "length v = n - 1"
  shows "\<exists>M tr. code_without_intercept n = Inr M \<and> length M = n \<and>
           list_all (\<lambda>row. length row = n - 1) M \<and>
           dot M v = Inr tr \<and> length tr = n \<and>
           (\<forall>i<n - 1. tr ! Suc i - tr ! i = v ! i) \<and> sum_list tr = 0"
proof -
  let ?tr = "map (\<lambda>i. \<Sum>j<n - 1. (if i \<le> j then (real (j + 1) - real n) / real n
                                   else real (j + 1) / real n) * v ! j) [0..<n]"
  have "code_without_intercept n = Inr (diff_contrast n)"
    using assms by (simp add: code_without_intercept_def)
  moreover have "dot (diff_contrast n) v = Inr ?tr"
    by (rule dot_diff_contrast [OF assms(2)])
  moreover have "\<forall>i<n - 1. ?tr ! Suc i - ?tr ! i = v ! i"
    using diff_contrast_increment [of _ n "\<lambda>j. v ! j"] by simp
  moreover have "sum_list ?tr = 0"
    using diff_contrast_trajectory_sum [of n "\<lambda>j. v ! j"]
    by (simp add: sum_list_sum_nth atLeast0LessThan)
  ultimately show ?thesis
    using length_diff_contrast [of n] diff_contrast_columns [of n] by simp
qed

theorem contrast_increments_and_centring_witness:
  "(2::nat) \<le> 3 \<and> length [1, 2 :: real] = 3 - 1 \<and>
   (\<exists>M tr. code_without_intercept 3 = Inr M \<and> length M = 3 \<and>
      list_all (\<lambda>row. length row = 3 - 1) M \<and>
      dot M [1, 2] = Inr tr \<and> length tr = 3 \<and>
      (\<forall>i<3 - 1. tr ! Suc i - tr ! i = [1, 2] ! i) \<and> sum_list tr = 0)"
  using contrast_increments_and_centring [of 3 "[1, 2]"] by simp

subsection \<open>The periodic radial basis\<close>

text \<open>
  Claim C5, as stated, has \<^verbatim>\<open>periodic_rbf\<close> invariant under \<open>x \<mapsto> x + 1\<close> on all of \<open>[0, 1)\<close>.
  At \<open>x = 3/4\<close>, centre \<open>0\<close> and width \<open>1\<close> the two values differ.
\<close>

theorem periodic_rbf_shift_counterexample:
  "periodic_rbf (3 / 4 + 1) 0 1 \<noteq> periodic_rbf (3 / 4) 0 1"
  by (simp add: periodic_rbf_def Let_def power2_eq_square)

text \<open>
  Claim C5, amended. For \<open>x\<close> and the centre in \<open>[0, 1)\<close> and a positive width,
  \<^verbatim>\<open>periodic_rbf\<close> takes the same value at \<open>x + 1\<close> and at \<open>x\<close> exactly when \<open>x\<close> lies at most
  half a period above the centre; in particular the two ends \<open>0\<close> and \<open>1\<close> of the documented
  range agree. At the centre the value is \<open>1\<close>.
\<close>

theorem periodic_rbf_shift_and_centre:
  assumes "0 \<le> x" "x < 1" "0 \<le> c" "c < 1" "0 < w"
  shows "(periodic_rbf (x + 1) c w = periodic_rbf x c w \<longleftrightarrow> x - c \<le> 1 / 2) \<and>
         periodic_rbf 1 c w = periodic_rbf 0 c w \<and>
         periodic_rbf c c w = 1"
  using assms
  by (auto simp: periodic_rbf_def Let_def power2_eq_iff min_def abs_if field_simps)

theorem periodic_rbf_shift_and_centre_witness:
  "(0::real) \<le> 1 / 4 \<and> (1 / 4 :: real) < 1 \<and> (0::real) \<le> 1 / 2 \<and> (1 / 2 :: real) < 1 \<and>
   (0::real) < 1 \<and>
   periodic_rbf (1 / 4 + 1) (1 / 2) 1 = periodic_rbf (1 / 4) (1 / 2) 1 \<and>
   periodic_rbf 1 (1 / 2) 1 = periodic_rbf 0 (1 / 2) 1 \<and>
   periodic_rbf (1 / 2) (1 / 2) 1 = 1"
  using periodic_rbf_shift_and_centre [of "1 / 4" "1 / 2" 1] by simp

subsection \<open>The seasonal basis\<close>

text \<open>
  Claim C6. For every positive width, every positive number of centres and every vector of
  day-of-year fractions, \<^verbatim>\<open>compute_doy_basis\<close> returns a matrix with one row per
  observation and one column per centre, and every row sums to zero. (For a number of
  centres that is not positive the function raises and returns no matrix.)
\<close>

theorem doy_basis_rows_sum_to_zero:
  assumes "0 < sigma" "0 < n"
  shows "\<exists>B. compute_doy_basis ys sigma n = Inr B \<and> length B = length ys \<and>
             list_all (\<lambda>row. length row = nat n \<and> sum_list row = 0) B"
proof -
  let ?row = "\<lambda>y. map (\<lambda>mu. periodic_rbf y mu sigma) (month_centers (nat n))"
  let ?B = "map (\<lambda>y. map (\<lambda>b. b - mean (?row y)) (?row y)) ys"
  have ne: "?row y \<noteq> []" for y
    using assms(2) length_month_centers [of "nat n"] by auto
  have "compute_doy_basis ys sigma n = Inr ?B"
    using assms(2) by (simp add: compute_doy_basis_def Let_def)
  moreover have "length ?B = length ys" by simp
  moreover have "list_all (\<lambda>row. length row = nat n \<and> sum_list row = 0) ?B"
    using sum_list_centered [OF ne] by (simp add: list_all_iff length_month_centers)
  ultimately show ?thesis by blast
qed

theorem doy_basis_rows_sum_to_zero_witness:
  "(0::real) < 30 / 365.25 \<and> (0::int) < 12 \<and>
   (\<exists>B. compute_doy_basis [0, 1 / 4, 1 / 2] (30 / 365.25) 12 = Inr B \<and>
      length B = length [0, 1 / 4, 1 / 2 :: real] \<and>
      list_all (\<lambda>row. length row = nat 12 \<and> sum_list row = 0) B)"
  using doy_basis_rows_sum_to_zero [of "30 / 365.25" 12 "[0, 1 / 4, 1 / 2]"] by simp

text \<open>
  Claim C9, as stated, has basis construction fail on an empty observation vector and on a
  width that is not positive. On the empty vector \<^verbatim>\<open>compute_doy_basis\<close> returns the empty
  matrix, and at the width \<open>-1\<close> it returns a matrix, the one of the width \<open>1\<close>.
\<close>

theorem basis_validation_counterexample:
  "compute_doy_basis [] (30 / 365.25) 12 = Inr [] \<and>
   (\<exists>B. compute_doy_basis [0, 1 / 2] (- 1) 12 = Inr B \<and>
        compute_doy_basis [0, 1 / 2] 1 12 = Inr B \<and> length B = 2)"
proof -
  obtain B where "compute_doy_basis [0, 1 / 2] 1 12 = Inr B" "length B = length [0, 1 / 2 :: real]"
    using compute_doy_basis_shape [of 12 "[0, 1 / 2]" 1] by auto
  moreover have "compute_doy_basis [0, 1 / 2] (- 1) 12 = compute_doy_basis [0, 1 / 2] 1 12"
    by (simp add: compute_doy_basis_def periodic_rbf_neg_width)
  moreover have "compute_doy_basis [] (30 / 365.25) 12 = Inr []"
    by (simp add: compute_doy_basis_def)
  ultimately show ?thesis by simp
qed

text \<open>
  Claim C9, amended. Basis construction validates neither the observation vector nor the
  width. For a positive number of centres and a width other than zero
  \<^verbatim>\<open>compute_doy_basis\<close> always returns a matrix: the empty one for an empty vector, and
  for a negative width the matrix of the width of equal magnitude.
  \<^verbatim>\<open>prepare_model_arguments\<close> on an empty series returns its dictionary for a
  downsampling factor of two or more, with an empty seasonal basis; for the factor one the
  contrast coding is asked for zero levels and raises \<^verbatim>\<open>ValueError\<close>.
\<close>

theorem basis_construction_unvalidated:
  assumes "0 < n" "2 \<le> c" "sigma \<noteq> 0"
  shows "compute_doy_basis [] sigma n = Inr [] \<and>
         (\<exists>B. compute_doy_basis ys sigma n = Inr B) \<and>
         compute_doy_basis ys (- sigma) n = compute_doy_basis ys sigma n \<and>
         (\<exists>a. prepare_model_arguments [] [] [] [] c = Inr a \<and> sales a = [] \<and>
              contrasts_yday a = []) \<and>
         prepare_model_arguments [] [] [] [] 1 = Inl ValueError"
proof -
  have "knot_count 0 c = Inr 1"
    using assms(2) by (simp add: knot_count_def)
  then have "\<exists>a. prepare_model_arguments [] [] [] [] c = Inr a \<and> sales a = [] \<and>
              contrasts_yday a = []"
    by (simp add: prepare_model_arguments_def code_without_intercept_def
        compute_doy_basis_def)
  moreover have "prepare_model_arguments [] [] [] [] 1 = Inl ValueError"
    by (simp add: prepare_model_arguments_def knot_count_def code_without_intercept_def)
  moreover have "\<exists>B. compute_doy_basis ys sigma n = Inr B"
    using compute_doy_basis_shape [OF assms(1)] by blast
  moreover have "compute_doy_basis ys (- sigma) n = compute_doy_basis ys sigma n"
    by (simp add: compute_doy_basis_def periodic_rbf_neg_width)
  moreover have "compute_doy_basis [] sigma n = Inr []"
    using assms(1) by (simp add: compute_doy_basis_def)
  ultimately show ?thesis by blast
qed

theorem basis_construction_unvalidated_witness:
  "(0::int) < 12 \<and> (2::int) \<le> 7 \<and> (1 / 10 :: real) \<noteq> 0 \<and>
   compute_doy_basis [] (1 / 10) 12 = Inr [] \<and>
   (\<exists>B. compute_doy_basis [0, 1 / 2] (1 / 10) 12 = Inr B) \<and>
   compute_doy_basis [0, 1 / 2] (- (1 / 10)) 12 = compute_doy_basis [0, 1 / 2] (1 / 10) 12 \<and>
   (\<exists>a. prepare_model_arguments [] [] [] [] 7 = Inr a \<and> sales a = [] \<and>
        contrasts_yday a = []) \<and>
   prepare_model_arguments [] [] [] [] 1 = Inl ValueError"
  using basis_construction_unvalidated [of 12 7 "1 / 10" "[0, 1 / 2]"] by simp

subsection \<open>Interpolating the trend\<close>

text \<open>
  Claim C7. With as many knots as observations the model takes the knot trajectory as the
  trend, and the interpolation at downsampling factor one returns that same trajectory
  (or the same error): it is the identity.
\<close>

theorem interpolation_identity_at_factor_one:
  assumes "length (sales a) = length (contrasts_sdif_t a)"
  shows "log_state_base a d =
           sample_random_walk (contrasts_sdif_t a) (length (contrasts_sdif_t a)) d \<and>
         sample_downsampled_random_walk 1 (contrasts_sdif_t a) (length (sales a))
             (length (contrasts_sdif_t a)) d =
           sample_random_walk (contrasts_sdif_t a) (length (contrasts_sdif_t a)) d"
proof
  show "log_state_base a d =
        sample_random_walk (contrasts_sdif_t a) (length (contrasts_sdif_t a)) d"
    using assms by (simp add: log_state_base_def)
next
  let ?Ct = "contrasts_sdif_t a"
  show "sample_downsampled_random_walk 1 ?Ct (length (sales a)) (length ?Ct) d =
        sample_random_walk ?Ct (length ?Ct) d"
  proof (cases "sample_random_walk ?Ct (length ?Ct) d")
    case (Inl e)
    then show ?thesis by (simp add: sample_downsampled_random_walk_def)
  next
    case (Inr w)
    then have len: "length w = length ?Ct" by (rule length_sample_random_walk)
    have "map (\<lambda>t. let state_before = jnp_take w (idx_1 1 t);
                        state_after = jnp_take w (idx_2 1 t)
                    in (1 - weight_2 1 t) * state_before + weight_2 1 t * state_after)
              [0..<length (sales a)] = w"
      using len assms
      by (intro nth_equalityI)
        (simp_all add: idx_1_def idx_2_def weight_2_def idx_n_weight_def jnp_take_in_range)
    with Inr show ?thesis by (simp add: sample_downsampled_random_walk_def)
  qed
qed

theorem interpolation_identity_at_factor_one_witness:
  "length (sales example_direct) = length (contrasts_sdif_t example_direct) \<and>
   log_state_base example_direct example_draws = Inr [0, 2] \<and>
   sample_downsampled_random_walk 1 (diff_contrast 2) 2 2 example_draws = Inr [0, 2]"
proof -
  have h: "length (sales example_direct) = length (contrasts_sdif_t example_direct)"
    by (simp add: example_direct_def length_diff_contrast)
  have f: "contrasts_sdif_t example_direct = diff_contrast 2" "length (sales example_direct) = 2"
    by (simp_all add: example_direct_def)
  from interpolation_identity_at_factor_one [OF h, of example_draws] h
  show ?thesis by (simp add: f length_diff_contrast example_knots)
qed

text \<open>
  Claim C8. With fewer knots than observations and a positive integer downsampling factor
  \<open>c\<close>, the trend of the model at an observation index \<open>c \<cdot> k\<close> within the series is the
  value of knot \<open>k\<close>, for every knot \<open>k\<close> of the trajectory.
\<close>

theorem interpolation_hits_knots:
  assumes "length (contrasts_sdif_t a) < length (sales a)"
    and "sample_random_walk (contrasts_sdif_t a) (length (contrasts_sdif_t a)) d = Inr knots"
    and "0 < downsampling_factor a"
    and "k < length knots"
    and "nat (downsampling_factor a) * k < length (sales a)"
  shows "\<exists>tr. log_state_base a d = Inr tr \<and> length tr = length (sales a) \<and>
              tr ! (nat (downsampling_factor a) * k) = knots ! k"
  using assms
  by (simp add: log_state_base_def sample_downsampled_random_walk_def idx_1_def idx_2_def
      weight_2_def idx_n_weight_knot jnp_take_in_range)

theorem interpolation_hits_knots_witness:
  "length (contrasts_sdif_t example_downsampled) < length (sales example_downsampled) \<and>
   sample_random_walk (diff_contrast 2) 2 example_draws = Inr [0, 2] \<and>
   (\<exists>tr. log_state_base example_downsampled example_draws = Inr tr \<and> length tr = 3 \<and>
         tr ! 2 = 2)"
proof -
  have f: "contrasts_sdif_t example_downsampled = diff_contrast 2"
    "length (sales example_downsampled) = 3" "downsampling_factor example_downsampled = 2"
    by (simp_all add: example_downsampled_def)
  have h1: "length (contrasts_sdif_t example_downsampled) < length (sales example_downsampled)"
    by (simp add: f length_diff_contrast)
  have h2: "sample_random_walk (contrasts_sdif_t example_downsampled)
              (length (contrasts_sdif_t example_downsampled)) example_draws = Inr [0, 2]"
    by (simp add: f length_diff_contrast example_knots)
  have h3: "0 < downsampling_factor example_downsampled" by (simp add: f)
  have h4: "1 < length [0, 2 :: real]" by simp
  have h5: "nat (downsampling_factor example_downsampled) * 1 < length (sales example_downsampled)"
    by (simp add: f)
  from interpolation_hits_knots [OF h1 h2 h3 h4 h5] h1 example_knots
  show ?thesis by (simp add: f)
qed

text \<open>
  Claim C10 says that with the knot count of \<^verbatim>\<open>prepare_model_arguments\<close> both
  interpolation indices stay below the knot count. For five observations and the factor
  three there are two knots, and at the last observation the upper index is two: it names
  no knot. (By \<open>idx_2_in_range_iff\<close> this happens whenever the observation count leaves a
  remainder of two or more.)
\<close>

theorem upper_index_reaches_knot_count:
  "knot_count 5 3 = Inr 2 \<and> idx_1 3 4 = 1 \<and> idx_2 3 4 = 2"
  by (simp add: knot_count_def idx_1_def idx_2_def idx_n_weight_def)

end
